theory Spec2Isabelle
  imports Main
begin

section \<open>JavaScript strings\<close>

text \<open>
  A JavaScript string is a sequence of UTF-16 code units; a code unit is modelled as a
  natural number, so \<open>length\<close> is the source's \<open>.length\<close>. String literals of the source
  are written \<open>lit ''...''\<close>.
\<close>

type_synonym jsstring = "nat list"

definition lit :: "string \<Rightarrow> jsstring" where
  "lit s = map of_char s"

definition STAR :: nat where
  "STAR = 42"

definition PIPE :: nat where
  "PIPE = 124"

definition NEWLINE :: nat where
  "NEWLINE = 10"

text \<open>
  The code units removed by \<open>String.prototype.trim\<close> and matched by the regular
  expression class \<open>\s\<close>: WhiteSpace and LineTerminator of ECMAScript.
\<close>

definition isWhiteSpace :: "nat \<Rightarrow> bool" where
  "isWhiteSpace c =
     (c = 9 \<or> c = 10 \<or> c = 11 \<or> c = 12 \<or> c = 13 \<or> c = 32 \<or> c = 160 \<or> c = 5760 \<or>
      (8192 \<le> c \<and> c \<le> 8202) \<or> c = 8232 \<or> c = 8233 \<or> c = 8239 \<or> c = 8287 \<or>
      c = 12288 \<or> c = 65279)"

text \<open>The regular expression class \<open>\d\<close>.\<close>

definition isDigit :: "nat \<Rightarrow> bool" where
  "isDigit c = (48 \<le> c \<and> c \<le> 57)"

definition trim :: "jsstring \<Rightarrow> jsstring" where
  "trim s = rev (dropWhile isWhiteSpace (rev (dropWhile isWhiteSpace s)))"

text \<open>\<open>s.startsWith(p)\<close>, \<open>s.endsWith(p)\<close> and \<open>s.includes(p)\<close>.\<close>

definition startsWith :: "jsstring \<Rightarrow> jsstring \<Rightarrow> bool" where
  "startsWith s p = (take (length p) s = p)"

definition endsWith :: "jsstring \<Rightarrow> jsstring \<Rightarrow> bool" where
  "endsWith s p = (length p \<le> length s \<and> drop (length s - length p) s = p)"

fun includesStr :: "jsstring \<Rightarrow> jsstring \<Rightarrow> bool" where
  "includesStr [] p = (p = [])"
| "includesStr (c # cs) p = (startsWith (c # cs) p \<or> includesStr cs p)"

text \<open>
  \<open>s.split(sep)\<close> for a string separator. \<open>splitFrom sep seg s\<close> scans \<open>s\<close> from the left
  with \<open>seg\<close> the piece collected since the last separator. An empty separator cuts
  between all code units.
\<close>

function splitFrom :: "jsstring \<Rightarrow> jsstring \<Rightarrow> jsstring \<Rightarrow> jsstring list" where
  "splitFrom sep seg [] = [seg]"
| "splitFrom sep seg (c # cs) =
     (if sep \<noteq> [] \<and> startsWith (c # cs) sep
      then seg # splitFrom sep [] (drop (length sep) (c # cs))
      else splitFrom sep (seg @ [c]) cs)"
  by pat_completeness auto
termination
  by (relation "measure (\<lambda>(sep, seg, s). length s)") auto

definition jsSplit :: "jsstring \<Rightarrow> jsstring \<Rightarrow> jsstring list" where
  "jsSplit s sep = (if sep = [] then map (\<lambda>c. [c]) s else splitFrom sep [] s)"

text \<open>\<open>s.split(sep, limit)\<close>: the pieces of the full split, cut off after \<open>limit\<close> of them.\<close>

definition splitLimit :: "jsstring \<Rightarrow> jsstring \<Rightarrow> nat \<Rightarrow> jsstring list" where
  "splitLimit s sep limit = take limit (jsSplit s sep)"

text \<open>
  \<open>xs.slice(1, -1)\<close> on an array and \<open>s.slice(k, -k)\<close> on a string: the elements from
  index \<open>k\<close> up to \<open>k\<close> before the end, none when the sequence is too short.
\<close>

definition sliceInner :: "nat \<Rightarrow> 'a list \<Rightarrow> 'a list" where
  "sliceInner k xs = take (length xs - 2 * k) (drop k xs)"

section \<open>The emphasis patterns\<close>

text \<open>
  The regular expressions \<open>\*\*[^*]+\*\*\<close> (\<open>k = 2\<close>) and \<open>\*[^*]+\*\<close> (\<open>k = 1\<close>), matched
  at the start of \<open>s\<close>: \<open>k\<close> stars, the longest non-empty run of code units other than the
  star, \<open>k\<close> stars. The greedy run cannot give a code unit back, since the pattern
  continues with a star. The result is the captured group; the matched text is the
  first \<open>2 * k + length body\<close> code units of \<open>s\<close>.
\<close>

definition matchEmph :: "nat \<Rightarrow> jsstring \<Rightarrow> jsstring option" where
  "matchEmph k s =
     (let body = takeWhile (\<lambda>c. c \<noteq> STAR) (drop k s)
      in if take k s = replicate k STAR \<and> body \<noteq> [] \<and>
            take k (drop (k + length body) s) = replicate k STAR
         then Some body else None)"

text \<open>
  \<open>s.split(/(pattern)/)\<close>: the pieces between the matches, with the matched text (the
  capture group spans the whole pattern) between them.
\<close>

function splitEmph :: "nat \<Rightarrow> jsstring \<Rightarrow> jsstring \<Rightarrow> jsstring list" where
  "splitEmph k seg [] = [seg]"
| "splitEmph k seg (c # cs) =
     (case matchEmph k (c # cs) of
        Some body \<Rightarrow>
          seg # take (2 * k + length body) (c # cs) #
            splitEmph k [] (drop (2 * k + length body) (c # cs))
      | None \<Rightarrow> splitEmph k (seg @ [c]) cs)"
  by pat_completeness auto
termination
  by (relation "measure (\<lambda>(k, seg, s). length s)")
     (auto simp: matchEmph_def Let_def split: if_splits)

text \<open>\<open>s.replace(/pattern/g, '$1')\<close>: every match replaced by its captured group.\<close>

function replaceEmph :: "nat \<Rightarrow> jsstring \<Rightarrow> jsstring" where
  "replaceEmph k [] = []"
| "replaceEmph k (c # cs) =
     (case matchEmph k (c # cs) of
        Some body \<Rightarrow> body @ replaceEmph k (drop (2 * k + length body) (c # cs))
      | None \<Rightarrow> c # replaceEmph k cs)"
  by pat_completeness auto
termination
  by (relation "measure (\<lambda>(k, s). length s)")
     (auto simp: matchEmph_def Let_def split: if_splits)

section \<open>Document model\<close>

text \<open>
  The objects of the docx library that the generator builds, with the attributes it
  sets. An attribute the source leaves out is \<open>None\<close>.
\<close>

definition ELECTRIC_BLUE :: jsstring where "ELECTRIC_BLUE = lit ''0051FF''"
definition DARK_BLUE :: jsstring where "DARK_BLUE = lit ''00184D''"
definition NEON_GREEN :: jsstring where "NEON_GREEN = lit ''C8FF00''"
definition BLACK :: jsstring where "BLACK = lit ''000000''"
definition LIGHT_GRAY :: jsstring where "LIGHT_GRAY = lit ''F4F4F4''"
definition MEDIUM_GRAY :: jsstring where "MEDIUM_GRAY = lit ''666666''"
definition WHITE :: jsstring where "WHITE = lit ''FFFFFF''"

record TextRun =
  run_text :: "jsstring option"
  run_bold :: "bool option"
  run_italics :: "bool option"
  run_color :: jsstring
  run_size :: nat
  run_font :: jsstring

datatype AlignmentType = LEFT | CENTER | RIGHT

datatype BorderStyle = SINGLE

record Spacing =
  before :: nat
  after :: nat

record BorderSide =
  border_style :: BorderStyle
  border_size :: nat
  border_color :: jsstring
  border_space :: "nat option"

record Borders =
  border_top :: "BorderSide option"
  border_bottom :: "BorderSide option"
  border_left :: "BorderSide option"
  border_right :: "BorderSide option"

datatype ParagraphChild = Run TextRun | PageBreak

record Paragraph =
  alignment :: "AlignmentType option"
  spacing :: "Spacing option"
  heading :: "jsstring option"
  bullet_level :: "nat option"
  numbering :: "(jsstring \<times> nat) option"
  indent_left :: "nat option"
  border :: "Borders option"
  children :: "ParagraphChild list"

text \<open>\<open>new Paragraph({})\<close>; the builders below set the attributes they pass.\<close>

definition emptyParagraph :: Paragraph where
  "emptyParagraph = \<lparr>alignment = None, spacing = None, heading = None, bullet_level = None,
     numbering = None, indent_left = None, border = None, children = []\<rparr>"

record Margins =
  margin_top :: nat
  margin_bottom :: nat
  margin_left :: nat
  margin_right :: nat

text \<open>A cell width is in twentieths of a point; \<open>None\<close> is a width read out of range.\<close>

record TableCell =
  cell_borders :: Borders
  cell_fill :: jsstring
  cell_width :: "int option"
  cell_margins :: "Margins option"
  cell_children :: "Paragraph list"

record TableRow =
  row_children :: "TableCell list"

record Table =
  width_percent :: nat
  columnWidths :: "int list"
  table_rows :: "TableRow list"

datatype Node = Para Paragraph | Tbl Table

definition tableBorder :: BorderSide where
  "tableBorder = \<lparr>border_style = SINGLE, border_size = 1, border_color = lit ''CCCCCC'',
     border_space = None\<rparr>"

definition cellBorders :: Borders where
  "cellBorders = \<lparr>border_top = Some tableBorder, border_bottom = Some tableBorder,
     border_left = Some tableBorder, border_right = Some tableBorder\<rparr>"

definition STATUS_PREFIXES :: "jsstring list" where
  "STATUS_PREFIXES = [lit ''Pulling'', lit ''Fetching'', lit ''Researching'', lit ''Building'',
     lit ''Loading'', lit ''Analyzing'', lit ''Computing'', lit ''Gathering'', lit ''Checking'']"

text \<open>\<open>xs[i]\<close>: \<open>None\<close> is JavaScript's \<open>undefined\<close>, read past the end of the array.\<close>

definition jsIndex :: "'a list \<Rightarrow> nat \<Rightarrow> 'a option" where
  "jsIndex xs i = (if i < length xs then Some (xs ! i) else None)"

section \<open>Inline text formatting\<close>

text \<open>The \<open>opts\<close> argument of \<open>parseInline\<close>; a missing property takes its default.\<close>

record InlineOpts =
  opt_color :: "jsstring option"
  opt_size :: "nat option"
  opt_font :: "jsstring option"
  opt_bold :: "bool option"
  opt_italic :: "bool option"

definition noOpts :: InlineOpts where
  "noOpts = \<lparr>opt_color = None, opt_size = None, opt_font = None, opt_bold = None,
     opt_italic = None\<rparr>"

definition orDefault :: "'a option \<Rightarrow> 'a \<Rightarrow> 'a" where
  "orDefault v d = (case v of None \<Rightarrow> d | Some x \<Rightarrow> x)"

definition parseInline :: "jsstring \<Rightarrow> InlineOpts \<Rightarrow> TextRun list" where
  "parseInline txt opts =
     (let color = orDefault (opt_color opts) BLACK;
          size = orDefault (opt_size opts) 22;
          font = orDefault (opt_font opts) (lit ''Calibri'');
          bold = orDefault (opt_bold opts) False;
          italic = orDefault (opt_italic opts) False
      in concat (map (\<lambda>part.
           if startsWith part (lit ''**'') \<and> endsWith part (lit ''**'') \<and> length part > 4
           then [\<lparr>run_text = Some (sliceInner 2 part), run_bold = Some True,
                   run_italics = Some italic, run_color = color, run_size = size,
                   run_font = font\<rparr>]
           else concat (map (\<lambda>sub.
                  if startsWith sub (lit ''*'') \<and> endsWith sub (lit ''*'') \<and> length sub > 2
                  then [\<lparr>run_text = Some (sliceInner 1 sub), run_bold = Some bold,
                          run_italics = Some True, run_color = color, run_size = size,
                          run_font = font\<rparr>]
                  else if sub \<noteq> []
                  then [\<lparr>run_text = Some sub, run_bold = Some bold, run_italics = Some italic,
                          run_color = color, run_size = size, run_font = font\<rparr>]
                  else [])
                (splitEmph 1 [] part)))
         (splitEmph 2 [] txt)))"

section \<open>Table rows, callout box and table parser\<close>

text \<open>\<open>stripMd\<close>: both emphasis patterns replaced by their content, then trimmed.\<close>

definition stripMd :: "jsstring \<Rightarrow> jsstring" where
  "stripMd txt = trim (replaceEmph 1 (replaceEmph 2 txt))"

definition createHeaderRow :: "jsstring list \<Rightarrow> int list \<Rightarrow> jsstring \<Rightarrow> TableRow" where
  "createHeaderRow hs colWidths bgColor =
     \<lparr>row_children = map (\<lambda>(i, h).
        \<lparr>cell_borders = cellBorders, cell_fill = bgColor, cell_width = jsIndex colWidths i,
         cell_margins = None,
         cell_children = [emptyParagraph\<lparr>spacing := Some \<lparr>before = 80, after = 80\<rparr>,
           children := [Run \<lparr>run_text = Some (stripMd h), run_bold = Some True,
             run_italics = None, run_color = WHITE, run_size = 20,
             run_font = lit ''Calibri''\<rparr>]\<rparr>]\<rparr>)
       (enumerate 0 hs)\<rparr>"

record DataRowOptions =
  opt_bgColor :: "jsstring option"
  opt_textColor :: "jsstring option"

text \<open>
  \<open>colWidths[i] || 2000\<close>: a cell beyond the width list, or a width of zero, gets the
  fallback width.
\<close>

definition widthOrFallback :: "int list \<Rightarrow> nat \<Rightarrow> int" where
  "widthOrFallback colWidths i =
     (case jsIndex colWidths i of None \<Rightarrow> 2000 | Some w \<Rightarrow> if w = 0 then 2000 else w)"

definition createDataRow :: "jsstring list \<Rightarrow> int list \<Rightarrow> DataRowOptions \<Rightarrow> TableRow" where
  "createDataRow cells colWidths options =
     (let bgColor = orDefault (opt_bgColor options) WHITE;
          textColor = orDefault (opt_textColor options) BLACK
      in \<lparr>row_children = map (\<lambda>(i, cell).
           \<lparr>cell_borders = cellBorders, cell_fill = bgColor,
            cell_width = Some (widthOrFallback colWidths i), cell_margins = None,
            cell_children = [emptyParagraph\<lparr>spacing := Some \<lparr>before = 60, after = 60\<rparr>,
              children := map Run (parseInline (stripMd cell)
                (noOpts\<lparr>opt_color := Some textColor, opt_size := Some 20\<rparr>))\<rparr>]\<rparr>)
          (enumerate 0 cells)\<rparr>)"

text \<open>The bullet glyph U+2022 followed by a space.\<close>

definition BULLET_GLYPH :: jsstring where
  "BULLET_GLYPH = [8226, 32]"

text \<open>One non-blank body line of a callout box (the body of the loop in \<open>createCTABox\<close>).\<close>

definition ctaBodyParagraph :: "jsstring \<Rightarrow> Paragraph" where
  "ctaBodyParagraph line =
     (let isBullet = startsWith line (lit ''- '');
          raw = (if isBullet then drop 2 line else line);
          lineRuns =
            (if isBullet
             then [\<lparr>run_text = Some BULLET_GLYPH, run_bold = None, run_italics = None,
                     run_color = NEON_GREEN, run_size = 20, run_font = lit ''Calibri''\<rparr>]
             else []) @
            concat (map (\<lambda>part.
              if startsWith part (lit ''**'') \<and> endsWith part (lit ''**'') \<and> length part > 4
              then [\<lparr>run_text = Some (sliceInner 2 part), run_bold = Some True,
                      run_italics = None, run_color = NEON_GREEN, run_size = 20,
                      run_font = lit ''Calibri''\<rparr>]
              else if part \<noteq> []
              then [\<lparr>run_text = Some part, run_bold = None, run_italics = None,
                      run_color = WHITE, run_size = 20, run_font = lit ''Calibri''\<rparr>]
              else [])
            (splitEmph 2 [] raw))
      in emptyParagraph\<lparr>spacing := Some \<lparr>before = 40, after = 40\<rparr>,
           indent_left := (if isBullet then Some 180 else None),
           children := map Run lineRuns\<rparr>)"

text \<open>
  \<open>createCTABox\<close>: the result \<open>None\<close> is the source's \<open>null\<close>. The headline is a string
  or absent (\<open>None\<close>: \<open>null\<close> or \<open>undefined\<close>); \<open>if (headline)\<close> holds for a non-empty
  string.
\<close>

definition createCTABox :: "jsstring option \<Rightarrow> jsstring list \<Rightarrow> Table option" where
  "createCTABox headline bodyLines =
     (let cs =
            (if headline \<noteq> None \<and> headline \<noteq> Some []
             then [emptyParagraph\<lparr>alignment := Some LEFT,
                     spacing := Some \<lparr>before = 160, after = 80\<rparr>,
                     children := [Run \<lparr>run_text = headline, run_bold = Some True,
                       run_italics = None, run_color = NEON_GREEN, run_size = 26,
                       run_font = lit ''Bebas Neue''\<rparr>]\<rparr>]
             else []) @
            map ctaBodyParagraph (filter (\<lambda>line. trim line \<noteq> []) bodyLines)
      in if length cs = 0 then None
         else Some \<lparr>width_percent = 100, columnWidths = [9360],
           table_rows = [\<lparr>row_children = [\<lparr>cell_borders = cellBorders, cell_fill = DARK_BLUE,
             cell_width = Some 9360,
             cell_margins = Some \<lparr>margin_top = 120, margin_bottom = 120, margin_left = 160,
               margin_right = 160\<rparr>,
             cell_children = cs\<rparr>]\<rparr>]\<rparr>)"

text \<open>
  The separator test \<open>/^\|[-:\s|]+\|$/\<close>: a pipe, one or more of hyphen, colon, white
  space and pipe, and a pipe at the end of the string.
\<close>

definition isSeparatorChar :: "nat \<Rightarrow> bool" where
  "isSeparatorChar c = (c = 45 \<or> c = 58 \<or> isWhiteSpace c \<or> c = PIPE)"

definition isSeparatorRow :: "jsstring \<Rightarrow> bool" where
  "isSeparatorRow s =
     (3 \<le> length s \<and> startsWith s [PIPE] \<and> endsWith s [PIPE] \<and>
      list_all isSeparatorChar (sliceInner 1 s))"

record ParsedTable =
  headers :: "jsstring list"
  rows :: "jsstring list list"
  isInfoTable :: bool

text \<open>The loop of \<open>parseMarkdownTable\<close>, with the two arrays it fills.\<close>

fun parseTableLines ::
  "jsstring list \<Rightarrow> jsstring list \<Rightarrow> jsstring list list \<Rightarrow> jsstring list \<times> jsstring list list"
where
  "parseTableLines [] hs rs = (hs, rs)"
| "parseTableLines (line # tableLines) hs rs =
     (let trimmed = trim line
      in if \<not> startsWith trimmed (lit ''|'') then parseTableLines tableLines hs rs
         else if isSeparatorRow trimmed then parseTableLines tableLines hs rs
         else (let cells = map trim (sliceInner 1 (jsSplit trimmed (lit ''|'')))
               in if length hs = 0 then parseTableLines tableLines (hs @ cells) rs
                  else parseTableLines tableLines hs (rs @ [cells])))"

definition parseMarkdownTable :: "jsstring list \<Rightarrow> ParsedTable" where
  "parseMarkdownTable tableLines =
     (case parseTableLines tableLines [] [] of (hs, rs) \<Rightarrow>
        \<lparr>headers = hs, rows = rs,
         isInfoTable = (length hs = 2 \<and> list_all (\<lambda>h. h = []) hs)\<rparr>)"

text \<open>\<open>row[i] || ''\<close>: a missing cell reads as the empty string.\<close>

definition cellOrEmpty :: "jsstring list \<Rightarrow> nat \<Rightarrow> jsstring" where
  "cellOrEmpty row i = (case jsIndex row i of None \<Rightarrow> [] | Some c \<Rightarrow> c)"

definition buildInfoTable :: "jsstring list list \<Rightarrow> Table" where
  "buildInfoTable rs =
     \<lparr>width_percent = 100, columnWidths = [2500, 6860],
      table_rows = map (\<lambda>row.
        (let label = stripMd (cellOrEmpty row 0);
             val = stripMd (cellOrEmpty row 1)
         in \<lparr>row_children =
              [\<lparr>cell_borders = cellBorders, cell_fill = LIGHT_GRAY, cell_width = Some 2500,
                cell_margins = Some \<lparr>margin_top = 60, margin_bottom = 60, margin_left = 80,
                  margin_right = 80\<rparr>,
                cell_children = [emptyParagraph\<lparr>children :=
                  [Run \<lparr>run_text = Some label, run_bold = Some True, run_italics = None,
                    run_color = BLACK, run_size = 22, run_font = lit ''Calibri''\<rparr>]\<rparr>]\<rparr>,
               \<lparr>cell_borders = cellBorders, cell_fill = WHITE, cell_width = Some 6860,
                cell_margins = Some \<lparr>margin_top = 60, margin_bottom = 60, margin_left = 80,
                  margin_right = 80\<rparr>,
                cell_children = [emptyParagraph\<lparr>children :=
                  [Run \<lparr>run_text = Some val, run_bold = None, run_italics = None,
                    run_color = BLACK, run_size = 22, run_font = lit ''Calibri''\<rparr>]\<rparr>]\<rparr>]\<rparr>))
        rs\<rparr>"

section \<open>Brand data table\<close>

definition totalWidth :: int where
  "totalWidth = 9360"

text \<open>
  The width list of \<open>buildBrandTable\<close> for \<open>n\<close> headers. \<open>Math.floor(totalWidth / n)\<close> is
  the integer quotient: both numbers are small integers, exact as doubles.
\<close>

definition brandColWidths :: "nat \<Rightarrow> int list" where
  "brandColWidths n =
     (let colWidth = totalWidth div int n
      in map (\<lambda>i. if i = n - 1 then totalWidth - colWidth * (int n - 1) else colWidth)
           [0..<n])"

text \<open>\<open>[...row]\<close> followed by pushes of the empty string up to the header count.\<close>

definition padRow :: "nat \<Rightarrow> jsstring list \<Rightarrow> jsstring list" where
  "padRow n row = row @ replicate (n - length row) []"

definition buildBrandTable ::
  "jsstring list \<Rightarrow> jsstring list list \<Rightarrow> jsstring \<Rightarrow> Table option" where
  "buildBrandTable hs rs headerColor =
     (if length hs = 0 then None
      else (let colWidths = brandColWidths (length hs)
            in Some \<lparr>width_percent = 100, columnWidths = colWidths,
                 table_rows = createHeaderRow hs colWidths headerColor #
                   map (\<lambda>(idx, row).
                     (let bg = (if idx mod 2 = 1 then LIGHT_GRAY else WHITE);
                          paddedRow = padRow (length hs) row
                      in createDataRow paddedRow colWidths
                           \<lparr>opt_bgColor = Some bg, opt_textColor = None\<rparr>))
                   (enumerate 0 rs)\<rparr>))"

section \<open>The markdown renderer\<close>

record ScanState =
  inCover :: bool
  coverH1Done :: bool
  coverSubtitleDone :: bool
  h2Count :: nat

definition initialState :: ScanState where
  "initialState = \<lparr>inCover = True, coverH1Done = False, coverSubtitleDone = False,
     h2Count = 0\<rparr>"

definition addSpacer :: "nat \<Rightarrow> nat \<Rightarrow> Node" where
  "addSpacer b a = Para (emptyParagraph\<lparr>spacing := Some \<lparr>before = b, after = a\<rparr>,
     children := []\<rparr>)"

definition pageBreakParagraph :: Paragraph where
  "pageBreakParagraph = emptyParagraph\<lparr>children := [PageBreak],
     spacing := Some \<lparr>before = 0, after = 0\<rparr>\<rparr>"

text \<open>The conditions of the two inner loops, on a line of the input.\<close>

definition isQuoteLine :: "jsstring \<Rightarrow> bool" where
  "isQuoteLine line = startsWith (trim line) (lit ''> '')"

definition isPipeLine :: "jsstring \<Rightarrow> bool" where
  "isPipeLine line = startsWith (trim line) (lit ''|'')"

definition isStatusLine :: "jsstring \<Rightarrow> bool" where
  "isStatusLine rawContent = list_ex (\<lambda>pfx. startsWith rawContent pfx) STATUS_PREFIXES"

text \<open>
  \<open>/^\*\*[^*]+\*\*$/\<close> on the first callout line: the emphasis pattern has to span the
  whole line; the result is the group that \<open>replace\<close> keeps.
\<close>

definition wholeBold :: "jsstring \<Rightarrow> jsstring option" where
  "wholeBold s =
     (case matchEmph 2 s of
        Some body \<Rightarrow> if length s = 4 + length body then Some body else None
      | None \<Rightarrow> None)"

text \<open>
  The callout branch after its lines are collected: headline and body, a spacer, the
  box unless it is null, a spacer.
\<close>

definition calloutHeadline :: "jsstring list \<Rightarrow> jsstring" where
  "calloutHeadline calloutLines =
     (case calloutLines of
        [] \<Rightarrow> []
      | first # others \<Rightarrow> (case wholeBold first of Some h \<Rightarrow> h | None \<Rightarrow> []))"

definition calloutBody :: "jsstring list \<Rightarrow> jsstring list" where
  "calloutBody calloutLines =
     (case calloutLines of
        [] \<Rightarrow> calloutLines
      | first # others \<Rightarrow> (case wholeBold first of Some h \<Rightarrow> others | None \<Rightarrow> calloutLines))"

definition boxNodes :: "jsstring \<Rightarrow> jsstring list \<Rightarrow> Node list" where
  "boxNodes headline bodyLines =
     addSpacer 80 0 #
     (case createCTABox (Some headline) bodyLines of None \<Rightarrow> [] | Some box \<Rightarrow> [Tbl box]) @
     [addSpacer 0 120]"

definition calloutNodes :: "jsstring list \<Rightarrow> Node list" where
  "calloutNodes quoteLines =
     (let calloutLines = map (\<lambda>l. trim (drop 2 (trim l))) quoteLines
      in boxNodes (calloutHeadline calloutLines) (calloutBody calloutLines))"

text \<open>The table branch after its lines are collected.\<close>

definition tableNodes :: "nat \<Rightarrow> jsstring list \<Rightarrow> Node list" where
  "tableNodes h2 tableLines =
     (let t = parseMarkdownTable tableLines
      in if isInfoTable t then [Tbl (buildInfoTable (rows t)), addSpacer 0 120]
         else if length (headers t) > 0
         then (let headerColor = (if h2 mod 2 = 1 then DARK_BLUE else ELECTRIC_BLUE)
               in case buildBrandTable (headers t) (rows t) headerColor of
                    Some tbl \<Rightarrow> [Tbl tbl, addSpacer 0 120]
                  | None \<Rightarrow> [])
         else [])"

text \<open>
  The cover title: \<open>const [preAmp, postAmp] = title.split(' & ', 2)\<close> and the two
  centered lines. A missing array element is \<open>undefined\<close>: no text for the first line,
  the word \<open>undefined\<close> after the ampersand in the second.
\<close>

definition coverTitleLine1 :: "jsstring option \<Rightarrow> Paragraph" where
  "coverTitleLine1 preAmp =
     emptyParagraph\<lparr>alignment := Some CENTER, spacing := Some \<lparr>before = 480, after = 0\<rparr>,
       children := [Run \<lparr>run_text = preAmp, run_bold = Some True, run_italics = None,
         run_color = ELECTRIC_BLUE, run_size = 48, run_font = lit ''Bebas Neue''\<rparr>]\<rparr>"

definition coverTitleLine2 :: "jsstring option \<Rightarrow> Paragraph" where
  "coverTitleLine2 postAmp =
     emptyParagraph\<lparr>alignment := Some CENTER, spacing := Some \<lparr>before = 0, after = 120\<rparr>,
       children := [Run \<lparr>run_text =
           Some (lit ''& '' @ (case postAmp of None \<Rightarrow> lit ''undefined'' | Some t \<Rightarrow> t)),
         run_bold = Some True, run_italics = None, run_color = DARK_BLUE, run_size = 76,
         run_font = lit ''Bebas Neue''\<rparr>]\<rparr>"

definition coverTitleNodes :: "jsstring \<Rightarrow> Node list" where
  "coverTitleNodes title =
     (let parts = splitLimit title (lit '' & '') 2
      in [Para (coverTitleLine1 (jsIndex parts 0)), Para (coverTitleLine2 (jsIndex parts 1))])"

definition headingParagraph ::
  "jsstring \<Rightarrow> nat \<Rightarrow> nat \<Rightarrow> jsstring \<Rightarrow> jsstring \<Rightarrow> nat \<Rightarrow> Paragraph" where
  "headingParagraph level b a txt col sz =
     emptyParagraph\<lparr>heading := Some level, spacing := Some \<lparr>before = b, after = a\<rparr>,
       children := [Run \<lparr>run_text = Some txt, run_bold = Some True, run_italics = None,
         run_color = col, run_size = sz, run_font = lit ''Bebas Neue''\<rparr>]\<rparr>"

definition bodyH1 :: "jsstring \<Rightarrow> Paragraph" where
  "bodyH1 title = headingParagraph (lit ''Heading1'') 360 160 title DARK_BLUE 40"

definition h2Paragraph :: "nat \<Rightarrow> jsstring \<Rightarrow> Paragraph" where
  "h2Paragraph h2 line =
     headingParagraph (lit ''Heading2'') 300 100 (trim (drop 3 line))
       (if h2 mod 2 = 1 then DARK_BLUE else ELECTRIC_BLUE) 36"

definition h3Paragraph :: "jsstring \<Rightarrow> Paragraph" where
  "h3Paragraph line = headingParagraph (lit ''Heading3'') 200 80 (trim (drop 4 line)) BLACK 26"

definition bulletParagraph :: "jsstring \<Rightarrow> Paragraph" where
  "bulletParagraph line =
     emptyParagraph\<lparr>bullet_level := Some 0, spacing := Some \<lparr>before = 40, after = 40\<rparr>,
       indent_left := Some 360,
       children := map Run (parseInline (trim (drop 2 line)) (noOpts\<lparr>opt_size := Some 22\<rparr>))\<rparr>"

text \<open>
  \<open>/^(\d+)\.\s/\<close> at the start of the line: the longest run of digits, a period, a
  white space. The result is the length of the match, which \<open>replace\<close> removes.
\<close>

definition numMatch :: "jsstring \<Rightarrow> nat option" where
  "numMatch line =
     (let digits = takeWhile isDigit line
      in case drop (length digits) line of
           d # w # r \<Rightarrow>
             if digits \<noteq> [] \<and> d = 46 \<and> isWhiteSpace w then Some (length digits + 2) else None
         | _ \<Rightarrow> None)"

definition numberedParagraph :: "nat \<Rightarrow> jsstring \<Rightarrow> Paragraph" where
  "numberedParagraph n line =
     emptyParagraph\<lparr>numbering := Some (lit ''num-list-1'', 0),
       spacing := Some \<lparr>before = 40, after = 40\<rparr>, indent_left := Some 360,
       children := map Run (parseInline (trim (drop n line)) (noOpts\<lparr>opt_size := Some 22\<rparr>))\<rparr>"

definition ruleParagraph :: Paragraph where
  "ruleParagraph =
     emptyParagraph\<lparr>spacing := Some \<lparr>before = 120, after = 120\<rparr>,
       border := Some \<lparr>border_top = None,
         border_bottom = Some \<lparr>border_style = SINGLE, border_size = 6,
           border_color = ELECTRIC_BLUE, border_space = Some 1\<rparr>,
         border_left = None, border_right = None\<rparr>,
       children := []\<rparr>"

definition blankParagraph :: Paragraph where
  "blankParagraph = emptyParagraph\<lparr>spacing := Some \<lparr>before = 0, after = 60\<rparr>, children := []\<rparr>"

definition subtitleParagraph :: "jsstring \<Rightarrow> Paragraph" where
  "subtitleParagraph trimmed =
     emptyParagraph\<lparr>alignment := Some CENTER, spacing := Some \<lparr>before = 0, after = 200\<rparr>,
       children := [Run \<lparr>run_text = Some trimmed, run_bold = None, run_italics = Some True,
         run_color = MEDIUM_GRAY, run_size = 26, run_font = lit ''Calibri''\<rparr>]\<rparr>"

definition bodyParagraph :: "jsstring \<Rightarrow> Paragraph" where
  "bodyParagraph trimmed =
     emptyParagraph\<lparr>spacing := Some \<lparr>before = 0, after = 80\<rparr>,
       children := map Run (parseInline trimmed (noOpts\<lparr>opt_size := Some 22\<rparr>))\<rparr>"

text \<open>
  One iteration of the \<open>while\<close> loop of \<open>renderMarkdown\<close>, with \<open>line\<close> the line at index
  \<open>i\<close> and \<open>rest\<close> the lines after it. The result is the nodes the iteration pushes to
  \<open>elements\<close>, the cover state and heading count after it, and the lines from the new
  index on: \<open>i++\<close> leaves \<open>rest\<close>, an inner loop leaves what follows the longest prefix
  of lines that satisfy its condition.
\<close>

definition step ::
  "ScanState \<Rightarrow> jsstring \<Rightarrow> jsstring list \<Rightarrow> Node list \<times> ScanState \<times> jsstring list" where
  "step st line rest =
     (let trimmed = trim line
      in if trimmed = lit ''[COVER_END]''
         then ([Para pageBreakParagraph], st\<lparr>inCover := False\<rparr>, rest)
         else if startsWith trimmed (lit ''> '')
         then (if isStatusLine (trim (drop 2 trimmed)) then ([], st, rest)
               else (calloutNodes (takeWhile isQuoteLine (line # rest)), st,
                     dropWhile isQuoteLine (line # rest)))
         else if startsWith trimmed (lit ''|'') \<and> \<not> isSeparatorRow trimmed
         then (tableNodes (h2Count st) (takeWhile isPipeLine (line # rest)), st,
               dropWhile isPipeLine (line # rest))
         else if startsWith line (lit ''# '')
         then (let title = trim (drop 2 line)
               in if inCover st \<and> \<not> coverH1Done st \<and> includesStr title (lit '' & '')
                  then (coverTitleNodes title, st\<lparr>coverH1Done := True\<rparr>, rest)
                  else ([Para (bodyH1 title)], st, rest))
         else if startsWith line (lit ''## '')
         then ([Para (h2Paragraph (h2Count st + 1) line)],
               st\<lparr>h2Count := h2Count st + 1, inCover := False\<rparr>, rest)
         else if startsWith line (lit ''### '')
         then ([Para (h3Paragraph line)], st, rest)
         else if startsWith line (lit ''- '') \<or> startsWith line (lit ''* '')
         then ([Para (bulletParagraph line)], st, rest)
         else (case numMatch line of
                 Some n \<Rightarrow> ([Para (numberedParagraph n line)], st, rest)
               | None \<Rightarrow>
                   if trimmed = lit ''---'' then ([Para ruleParagraph], st, rest)
                   else if trimmed = [] then ([Para blankParagraph], st, rest)
                   else if inCover st \<and> coverH1Done st \<and> \<not> coverSubtitleDone st
                   then ([Para (subtitleParagraph trimmed)], st\<lparr>coverSubtitleDone := True\<rparr>,
                         rest)
                   else ([Para (bodyParagraph trimmed)], st, rest)))"

text \<open>The loop: it runs while lines are left and returns the nodes in the order pushed.\<close>

function renderLoop :: "ScanState \<Rightarrow> jsstring list \<Rightarrow> Node list" where
  "renderLoop st [] = []"
| "renderLoop st (line # rest) =
     (case step st line rest of (out, st', remaining) \<Rightarrow> out @ renderLoop st' remaining)"
  by pat_completeness auto
termination
proof (relation "measure (\<lambda>(st, ls). length ls)")
  fix st :: ScanState and line :: jsstring and rest :: "jsstring list"
    and out y st' remaining
  assume "(out, y) = step st line rest" and "(st', remaining) = y"
  then have s: "step st line rest = (out, st', remaining)"
    by simp
  have "length remaining \<le> length rest"
    using s
    by (auto simp: step_def Let_def isQuoteLine_def isPipeLine_def length_dropWhile_le
        split: if_splits option.splits)
  then show "((st', remaining), st, line # rest) \<in> measure (\<lambda>(st, ls). length ls)"
    by simp
qed simp

declare renderLoop.simps [simp del]

definition renderMarkdown :: "jsstring \<Rightarrow> Node list" where
  "renderMarkdown content = renderLoop initialState (jsSplit content [NEWLINE])"

text \<open>
  The conditions under which the loop takes one of its block branches, in the order of
  the source: cover end, blockquote, table, the three headings, bullet, numbered item,
  horizontal rule.
\<close>

definition isBlockMarker :: "jsstring \<Rightarrow> bool" where
  "isBlockMarker line =
     (trim line = lit ''[COVER_END]'' \<or>
      startsWith (trim line) (lit ''> '') \<or>
      (startsWith (trim line) (lit ''|'') \<and> \<not> isSeparatorRow (trim line)) \<or>
      startsWith line (lit ''# '') \<or>
      startsWith line (lit ''## '') \<or>
      startsWith line (lit ''### '') \<or>
      startsWith line (lit ''- '') \<or> startsWith line (lit ''* '') \<or>
      numMatch line \<noteq> None \<or>
      trim line = lit ''---'')"

text \<open>
  The first line of the two-line cover title, recognised in the output by its layout:
  centered, with 480 before and 0 after.
\<close>

definition isCoverTitle :: "Node \<Rightarrow> bool" where
  "isCoverTitle n =
     (case n of
        Para p \<Rightarrow> alignment p = Some CENTER \<and> spacing p = Some \<lparr>before = 480, after = 0\<rparr>
      | Tbl t \<Rightarrow> False)"

section \<open>Properties of the string operations\<close>

lemma lit_Nil: "lit [] = []"
  by (simp add: lit_def)

lemma lit_Cons: "lit (c # cs) = of_char c # lit cs"
  by (simp add: lit_def)

lemmas str_eval = lit_Cons lit_Nil trim_def isWhiteSpace_def startsWith_def endsWith_def
  jsSplit_def sliceInner_def isSeparatorRow_def isSeparatorChar_def PIPE_def STAR_def

lemma matchEmph_no_star:
  assumes "STAR \<notin> set s" and "0 < k"
  shows "matchEmph k s = None"
proof (cases "take k s = replicate k STAR")
  case True
  obtain j where k: "k = Suc j"
    using assms(2) by (cases k) auto
  from True k have "s \<noteq> []" by auto
  then obtain c cs where s: "s = c # cs"
    by (cases s) auto
  from True s k have "c = STAR" by simp
  with s assms(1) show ?thesis by simp
next
  case False
  then show ?thesis by (simp add: matchEmph_def Let_def)
qed

lemma splitEmph_no_star:
  "STAR \<notin> set s \<Longrightarrow> 0 < k \<Longrightarrow> splitEmph k seg s = [seg @ s]"
proof (induction s arbitrary: seg)
  case Nil
  then show ?case by simp
next
  case (Cons c cs)
  have "matchEmph k (c # cs) = None"
    using Cons.prems by (intro matchEmph_no_star)
  moreover have "splitEmph k (seg @ [c]) cs = [(seg @ [c]) @ cs]"
    using Cons.prems by (intro Cons.IH) simp_all
  ultimately show ?case by simp
qed

lemma startsWith_star: "startsWith s (lit ''*'') \<Longrightarrow> STAR \<in> set s"
  by (cases s) (auto simp: startsWith_def lit_Cons lit_Nil STAR_def)

lemma startsWith_two_stars: "startsWith s (lit ''**'') \<Longrightarrow> STAR \<in> set s"
  by (cases s) (auto simp: startsWith_def lit_Cons lit_Nil STAR_def)

lemma trim_Cons_nonspace:
  assumes "\<not> isWhiteSpace c"
  shows "trim (c # cs) = c # rev (dropWhile isWhiteSpace (rev cs))"
proof -
  have "dropWhile isWhiteSpace (rev cs @ [c]) = dropWhile isWhiteSpace (rev cs) @ [c]"
    using assms by (simp add: dropWhile_append)
  then show ?thesis
    using assms by (simp add: trim_def)
qed

lemma trim_decomp:
  "\<exists>a b. s = a @ trim s @ b \<and> (\<forall>c \<in> set a. isWhiteSpace c) \<and> (\<forall>c \<in> set b. isWhiteSpace c)"
proof -
  let ?a = "takeWhile isWhiteSpace s"
  let ?m = "dropWhile isWhiteSpace s"
  let ?b = "rev (takeWhile isWhiteSpace (rev ?m))"
  have "rev (takeWhile isWhiteSpace (rev ?m) @ dropWhile isWhiteSpace (rev ?m)) = ?m"
    by (simp only: takeWhile_dropWhile_id rev_rev_ident)
  then have "rev (dropWhile isWhiteSpace (rev ?m)) @ ?b = ?m"
    by (simp only: rev_append)
  then have m: "?m = trim s @ ?b"
    by (simp only: trim_def)
  have "s = ?a @ ?m" by simp
  with m have "s = ?a @ trim s @ ?b" by simp
  moreover have "\<forall>c \<in> set ?a. isWhiteSpace c"
    by (auto dest: set_takeWhileD)
  moreover have "\<forall>c \<in> set ?b. isWhiteSpace c"
    by (auto dest: set_takeWhileD)
  ultimately show ?thesis by blast
qed

text \<open>A line whose trimmed text is \<open>t\<close> starts with \<open>t\<close> or with a white space.\<close>

lemma trim_line_shape:
  assumes "trim line = t" and "t \<noteq> []"
  shows "(\<exists>b. line = t @ b) \<or> (\<exists>c r. line = c # r \<and> isWhiteSpace c)"
proof -
  obtain a b where ab: "line = a @ trim line @ b" "\<forall>c \<in> set a. isWhiteSpace c"
    using trim_decomp by blast
  show ?thesis
  proof (cases a)
    case Nil
    with ab assms show ?thesis by auto
  next
    case (Cons c a')
    with ab show ?thesis by auto
  qed
qed

lemma numMatch_no_digit:
  assumes "line = c # r" and "\<not> isDigit c"
  shows "numMatch line = None"
  using assms by (simp add: numMatch_def split: list.splits)

section \<open>The inline tokenizer on text without emphasis markers\<close>

lemma parseInline_Nil: "parseInline [] opts = []"
  by (simp add: parseInline_def Let_def startsWith_def endsWith_def lit_Cons lit_Nil)

text \<open>
  C6, as stated, fails on the empty text: it has no star, and the tokenizer returns no
  run for it, since a run is pushed only for a non-empty piece.
\<close>

theorem parseInline_empty_text_no_run:
  "STAR \<notin> set (lit '''') \<and> parseInline (lit '''') noOpts = [] \<and>
   length (parseInline (lit '''') noOpts) \<noteq> 1"
  by (simp add: parseInline_Nil lit_Nil)

text \<open>
  C6, amended: for every non-empty text without a star, the tokenizer returns exactly one
  run; its text is the input and its bold, italic, color, size and font are those of the
  caller's options (the defaults where the caller gives none). For the empty text it
  returns no run.
\<close>

theorem parseInline_plain_text:
  assumes "STAR \<notin> set txt"
  shows "parseInline txt opts =
           (if txt = [] then []
            else [\<lparr>run_text = Some txt,
                    run_bold = Some (orDefault (opt_bold opts) False),
                    run_italics = Some (orDefault (opt_italic opts) False),
                    run_color = orDefault (opt_color opts) BLACK,
                    run_size = orDefault (opt_size opts) 22,
                    run_font = orDefault (opt_font opts) (lit ''Calibri'')\<rparr>])"
proof -
  have no2: "\<not> startsWith txt (lit ''**'')"
    using assms startsWith_two_stars by blast
  have no1: "\<not> startsWith txt (lit ''*'')"
    using assms startsWith_star by blast
  have s2: "splitEmph 2 [] txt = [txt]"
    using splitEmph_no_star [OF assms, of 2 "[]"] by simp
  have s1: "splitEmph (Suc 0) [] txt = [txt]"
    using splitEmph_no_star [OF assms, of "Suc 0" "[]"] by simp
  show ?thesis
    by (simp add: parseInline_def Let_def s2 s1 no2 no1)
qed

theorem parseInline_plain_text_witness:
  "STAR \<notin> set (lit ''Hello'') \<and>
   parseInline (lit ''Hello'') (noOpts\<lparr>opt_size := Some 20, opt_italic := Some True\<rparr>) =
     [\<lparr>run_text = Some (lit ''Hello''), run_bold = Some False, run_italics = Some True,
       run_color = BLACK, run_size = 20, run_font = lit ''Calibri''\<rparr>]"
proof -
  have h: "STAR \<notin> set (lit ''Hello'')"
    by (simp add: lit_Cons lit_Nil STAR_def)
  show ?thesis
    using h parseInline_plain_text [OF h, of "noOpts\<lparr>opt_size := Some 20, opt_italic := Some True\<rparr>"]
    by (simp add: noOpts_def orDefault_def lit_Cons lit_Nil)
qed

section \<open>The table parser\<close>

text \<open>
  A row of white space between pipes, such as \<open>| | |\<close>, passes the separator test and is
  skipped; a header row of two empty cells is one that the separator test rejects, such
  as \<open>| | |x\<close> (see the witness below).
\<close>

lemma blank_row_is_separator: "isSeparatorRow (trim (lit ''| | |''))"
  by (simp add: str_eval)



section \<open>The brand table\<close>

lemma map_upt_except_last: "map (\<lambda>i. if i = m then a else b) [0..<m] = replicate m b"
proof -
  have "map (\<lambda>i. if i = m then a else b) [0..<m] = map (\<lambda>i. b) [0..<m]"
    by (rule map_cong) auto
  then show ?thesis
    by (simp add: map_replicate_const)
qed

lemma brandColWidths_Suc:
  "brandColWidths (Suc m) =
     replicate m (totalWidth div int (Suc m)) @
       [totalWidth - (totalWidth div int (Suc m)) * int m]"
  by (simp add: brandColWidths_def Let_def map_upt_except_last)

lemma sum_list_brandColWidths:
  assumes "0 < n"
  shows "sum_list (brandColWidths n) = totalWidth"
proof -
  obtain m where n: "n = Suc m"
    using assms by (cases n) auto
  show ?thesis
    unfolding n brandColWidths_Suc by (simp add: sum_list_replicate)
qed

lemma length_brandColWidths: "length (brandColWidths n) = n"
  by (simp add: brandColWidths_def Let_def)

lemma brandColWidths_nth: "i < n - 1 \<Longrightarrow> brandColWidths n ! i = totalWidth div int n"
  by (simp add: brandColWidths_def Let_def)

lemma brandColWidths_last:
  assumes "0 < n"
  shows "last (brandColWidths n) = totalWidth div int n + totalWidth mod int n"
proof -
  obtain m where n: "n = Suc m"
    using assms by (cases n) auto
  have "totalWidth = int (Suc m) * (totalWidth div int (Suc m)) + totalWidth mod int (Suc m)"
    by simp
  then show ?thesis
    unfolding n brandColWidths_Suc by (simp add: algebra_simps)
qed







text \<open>
  C5: for a brand table of one or more columns the width list has one entry per header
  and sums to the total width exactly; every column but the last gets the integer
  quotient of the total width by the column count, and the last one gets the quotient
  plus the remainder.
\<close>

theorem brand_table_widths_sum:
  assumes "hs \<noteq> []"
  shows "\<exists>t. buildBrandTable hs rs headerColor = Some t \<and>
           length (columnWidths t) = length hs \<and>
           sum_list (columnWidths t) = totalWidth \<and>
           (\<forall>i. i < length hs - 1 \<longrightarrow> columnWidths t ! i = totalWidth div int (length hs)) \<and>
           last (columnWidths t) =
             totalWidth div int (length hs) + totalWidth mod int (length hs)"
  using assms
  by (simp add: buildBrandTable_def Let_def length_brandColWidths sum_list_brandColWidths
      brandColWidths_nth brandColWidths_last)

theorem brand_table_widths_sum_witness:
  "[lit ''a'', lit ''b'', lit ''c'', lit ''d'', lit ''e'', lit ''f'', lit ''g''] \<noteq> [] \<and>
   (\<exists>t. buildBrandTable [lit ''a'', lit ''b'', lit ''c'', lit ''d'', lit ''e'', lit ''f'', lit ''g'']
          [] ELECTRIC_BLUE = Some t \<and>
        length (columnWidths t) = 7 \<and> sum_list (columnWidths t) = 9360 \<and>
        columnWidths t ! 0 = 1337 \<and> last (columnWidths t) = 1338)"
proof -
  have h: "[lit ''a'', lit ''b'', lit ''c'', lit ''d'', lit ''e'', lit ''f'', lit ''g''] \<noteq> []"
    by simp
  show ?thesis
    using brand_table_widths_sum [OF h, of "[]" ELECTRIC_BLUE]
    by (auto simp: totalWidth_def)
qed




section \<open>The callout box\<close>

text \<open>
  C9: with no headline (absent, or the empty string that the renderer passes) and a
  body in which every line is blank, the callout box builder returns null (and raises
  nothing); the renderer then pushes no box between the two spacers of that position.
\<close>

theorem createCTABox_blank_is_null:
  assumes "headline = None \<or> headline = Some []"
    and "\<forall>l \<in> set bodyLines. trim l = []"
  shows "createCTABox headline bodyLines = None \<and>
         boxNodes [] bodyLines = [addSpacer 80 0, addSpacer 0 120]"
proof -
  have f: "filter (\<lambda>line. trim line \<noteq> []) bodyLines = []"
    using assms(2) by (simp add: filter_empty_conv)
  have "createCTABox headline bodyLines = None"
    using assms(1) f by (auto simp: createCTABox_def)
  moreover have "createCTABox (Some []) bodyLines = None"
    using f by (simp add: createCTABox_def)
  ultimately show ?thesis
    by (simp add: boxNodes_def)
qed

theorem createCTABox_blank_is_null_witness:
  "trim [] = [] \<and> trim (lit ''  '') = [] \<and>
   createCTABox None [[], lit ''  ''] = None \<and>
   createCTABox (Some []) [[], lit ''  ''] = None \<and>
   boxNodes [] [[], lit ''  ''] = [addSpacer 80 0, addSpacer 0 120]"
proof -
  have t: "trim [] = []" "trim (lit ''  '') = []"
    by (simp_all add: str_eval)
  then have h: "\<forall>l \<in> set [[], lit ''  '']. trim l = []"
    by simp
  show ?thesis
    using t createCTABox_blank_is_null [of None, OF _ h]
      createCTABox_blank_is_null [of "Some []", OF _ h]
    by simp
qed

section \<open>The renderer loop\<close>

lemma renderLoop_Cons:
  "step st line rest = (out, st', remaining) \<Longrightarrow>
     renderLoop st (line # rest) = out @ renderLoop st' remaining"
  by (simp add: renderLoop.simps(2))

text \<open>A line that starts with a hash still starts with it after trimming.\<close>

lemma trim_hash_line:
  assumes "startsWith line (35 # p)"
  shows "\<exists>r. trim line = 35 # r"
proof -
  obtain r where "line = 35 # r"
    using assms by (cases line) (auto simp: startsWith_def)
  moreover have "\<not> isWhiteSpace 35"
    by (simp add: isWhiteSpace_def)
  ultimately show ?thesis
    by (simp add: trim_Cons_nonspace)
qed

section \<open>The horizontal rule\<close>

text \<open>
  C3, as stated, fails on a line of four hyphens: the renderer compares the trimmed line
  with exactly three hyphens, so four hyphens are body text: a paragraph with a run and
  no border.
\<close>

theorem four_hyphens_are_body_text:
  "trim (lit ''----'') = lit ''----'' \<and>
   renderMarkdown (lit ''----'') = [Para (bodyParagraph (lit ''----''))] \<and>
   border (bodyParagraph (lit ''----'')) = None \<and>
   children (bodyParagraph (lit ''----'')) \<noteq> []"
  by (simp add: renderMarkdown_def renderLoop.simps step_def str_eval NEWLINE_def numMatch_def
      isDigit_def initialState_def bodyParagraph_def emptyParagraph_def parseInline_def Let_def
      noOpts_def orDefault_def matchEmph_def)

text \<open>
  C3, amended: for every line that is, after trimming, exactly three hyphens, in any
  state, the iteration emits exactly one paragraph, leaves the state as it is and
  advances one line; the paragraph has no children and a border with only a bottom
  side, in the accent color. Such a line matches no earlier rule.
\<close>

theorem horizontal_rule_line:
  assumes "trim line = lit ''---''"
  shows "step st line rest = ([Para ruleParagraph], st, rest) \<and>
         renderLoop st (line # rest) = Para ruleParagraph # renderLoop st rest \<and>
         children ruleParagraph = [] \<and>
         border ruleParagraph =
           Some \<lparr>border_top = None,
             border_bottom = Some \<lparr>border_style = SINGLE, border_size = 6,
               border_color = ELECTRIC_BLUE, border_space = Some 1\<rparr>,
             border_left = None, border_right = None\<rparr>"
proof -
  have t: "trim line = [45, 45, 45]"
    using assms by (simp add: lit_Cons lit_Nil)
  from trim_line_shape [OF t] consider
    (plain) b where "line = [45, 45, 45] @ b" | (space) c r where "line = c # r" "isWhiteSpace c"
    by auto
  then have heads: "\<not> startsWith line (lit ''# '') \<and> \<not> startsWith line (lit ''## '') \<and>
      \<not> startsWith line (lit ''### '') \<and> \<not> startsWith line (lit ''- '') \<and>
      \<not> startsWith line (lit ''* '') \<and> numMatch line = None"
  proof cases
    case plain
    then show ?thesis
      by (simp add: startsWith_def lit_Cons lit_Nil numMatch_no_digit isDigit_def)
  next
    case space
    then show ?thesis
      by (auto simp: startsWith_def lit_Cons lit_Nil isWhiteSpace_def isDigit_def
          intro!: numMatch_no_digit)
  qed
  have "trim line \<noteq> lit ''[COVER_END]''" "\<not> startsWith (trim line) (lit ''> '')"
    "\<not> startsWith (trim line) (lit ''|'')" "trim line = lit ''---''"
    unfolding t by (simp_all add: startsWith_def lit_Cons lit_Nil)
  with heads have s: "step st line rest = ([Para ruleParagraph], st, rest)"
    by (simp add: step_def Let_def)
  then have "renderLoop st (line # rest) = Para ruleParagraph # renderLoop st rest"
    by (simp add: renderLoop_Cons)
  with s show ?thesis
    by (simp add: ruleParagraph_def emptyParagraph_def)
qed

theorem horizontal_rule_line_witness:
  "trim (lit '' --- '') = lit ''---'' \<and>
   renderLoop initialState [lit '' --- ''] = [Para ruleParagraph]"
proof -
  have h: "trim (lit '' --- '') = lit ''---''"
    by (simp add: str_eval)
  show ?thesis
    using h horizontal_rule_line [OF h, of initialState "[]"]
    by (simp add: renderLoop.simps(1))
qed

section \<open>Spacers around a callout\<close>




text \<open>
  Inside the renderer the builder never returns null: a line is a blockquote line only
  when its trimmed text starts with the marker and a space, so something other than
  white space follows the marker, and the first collected line is a headline or a
  non-blank body line.
\<close>

lemma last_dropWhile_eq:
  assumes "dropWhile P xs \<noteq> []"
  shows "last (dropWhile P xs) = last xs"
proof -
  have "last (takeWhile P xs @ dropWhile P xs) = last (dropWhile P xs)"
    using assms by (simp only: last_append if_False)
  then show ?thesis
    by (simp only: takeWhile_dropWhile_id)
qed

lemma trim_hd_nonspace:
  assumes "trim s \<noteq> []"
  shows "\<not> isWhiteSpace (hd (trim s))"
proof -
  let ?m = "dropWhile isWhiteSpace s"
  let ?d = "dropWhile isWhiteSpace (rev ?m)"
  have d: "?d \<noteq> []"
    using assms by (simp add: trim_def)
  have m: "?m \<noteq> []"
  proof
    assume "?m = []"
    then have "?d = []"
      by (simp only: rev.simps dropWhile.simps)
    with d show False by simp
  qed
  have "hd (trim s) = last ?d"
    using d by (simp add: trim_def hd_rev)
  also have "\<dots> = last (rev ?m)"
    using d by (rule last_dropWhile_eq)
  also have "\<dots> = hd ?m"
    using m by (simp add: last_rev)
  finally show ?thesis
    using m hd_dropWhile [of isWhiteSpace s] by simp
qed

lemma trim_last_nonspace:
  assumes "trim s \<noteq> []"
  shows "\<not> isWhiteSpace (last (trim s))"
proof -
  let ?d = "dropWhile isWhiteSpace (rev (dropWhile isWhiteSpace s))"
  have d: "?d \<noteq> []"
    using assms by (simp add: trim_def)
  have "last (trim s) = hd ?d"
    using d by (simp add: trim_def last_rev)
  then show ?thesis
    using d hd_dropWhile [of isWhiteSpace "rev (dropWhile isWhiteSpace s)"] by simp
qed

lemma trim_nonblank:
  assumes "c \<in> set s" and "\<not> isWhiteSpace c"
  shows "trim s \<noteq> []"
proof
  assume "trim s = []"
  then have "dropWhile isWhiteSpace (rev (dropWhile isWhiteSpace s)) = []"
    by (simp add: trim_def)
  then have "\<forall>x \<in> set (dropWhile isWhiteSpace s). isWhiteSpace x"
    by simp
  moreover have "dropWhile isWhiteSpace s \<noteq> [] \<longrightarrow>
      \<not> isWhiteSpace (hd (dropWhile isWhiteSpace s))"
    using hd_dropWhile [of isWhiteSpace s] by simp
  ultimately have "dropWhile isWhiteSpace s = []"
    by (cases "dropWhile isWhiteSpace s") auto
  then have "\<forall>x \<in> set s. isWhiteSpace x"
    by simp
  with assms show False by blast
qed

lemma trim_idem: "trim (trim s) = trim s"
proof (cases "trim s = []")
  case True
  have "trim [] = []"
    by (simp add: trim_def)
  with True show ?thesis by simp
next
  case False
  have h: "\<not> isWhiteSpace (hd (trim s))"
    using False by (rule trim_hd_nonspace)
  have l: "\<not> isWhiteSpace (last (trim s))"
    using False by (rule trim_last_nonspace)
  have "dropWhile isWhiteSpace (trim s) = trim s"
    using False h by (cases "trim s") auto
  moreover have "dropWhile isWhiteSpace (rev (trim s)) = rev (trim s)"
    using False l by (cases "rev (trim s)") (auto simp: hd_rev)
  ultimately show ?thesis
    by (simp add: trim_def [of "trim s"])
qed

lemma quote_line_content:
  assumes "startsWith (trim l) (lit ''> '')"
  shows "trim (drop 2 (trim l)) \<noteq> []"
proof -
  obtain r where t: "trim l = 62 # 32 # r"
    using assms by (cases "trim l"; cases "tl (trim l)") (auto simp: startsWith_def lit_Cons lit_Nil)
  have "\<not> isWhiteSpace (last (trim l))"
    by (rule trim_last_nonspace) (simp add: t)
  then have r: "r \<noteq> []" "\<not> isWhiteSpace (last r)"
    by (auto simp: t isWhiteSpace_def split: if_splits)
  then have "last r \<in> set r"
    by simp
  then have "trim r \<noteq> []"
    using r(2) by (rule trim_nonblank)
  then show ?thesis
    by (simp add: t)
qed

lemma wholeBold_nonempty: "wholeBold s = Some h \<Longrightarrow> h \<noteq> []"
  by (auto simp: wholeBold_def matchEmph_def Let_def split: option.splits if_splits)

lemma callout_box_never_null:
  assumes "startsWith (trim line) (lit ''> '')"
  shows "createCTABox
           (Some (calloutHeadline (map (\<lambda>l. trim (drop 2 (trim l))) (line # others))))
           (calloutBody (map (\<lambda>l. trim (drop 2 (trim l))) (line # others))) \<noteq> None"
proof (cases "wholeBold (trim (drop 2 (trim line)))")
  case None
  have "trim (trim (drop 2 (trim line))) \<noteq> []"
    using quote_line_content [OF assms] by (simp add: trim_idem)
  then show ?thesis
    using None by (simp add: createCTABox_def calloutHeadline_def calloutBody_def Let_def)
next
  case (Some h)
  then have "h \<noteq> []"
    by (rule wholeBold_nonempty)
  then show ?thesis
    using Some by (simp add: createCTABox_def calloutHeadline_def calloutBody_def Let_def)
qed

section \<open>Text without block markers\<close>

lemma step_unmarked_line:
  assumes "\<not> isBlockMarker line"
  shows "step st line rest =
           (if trim line = [] then ([Para blankParagraph], st, rest)
            else if inCover st \<and> coverH1Done st \<and> \<not> coverSubtitleDone st
            then ([Para (subtitleParagraph (trim line))], st\<lparr>coverSubtitleDone := True\<rparr>, rest)
            else ([Para (bodyParagraph (trim line))], st, rest))"
proof -
  from assms have c: "trim line \<noteq> lit ''[COVER_END]''" "\<not> startsWith (trim line) (lit ''> '')"
    "\<not> startsWith line (lit ''# '')" "\<not> startsWith line (lit ''## '')"
    "\<not> startsWith line (lit ''### '')" "\<not> startsWith line (lit ''- '')"
    "\<not> startsWith line (lit ''* '')" "numMatch line = None" "trim line \<noteq> lit ''---''"
    by (simp_all add: isBlockMarker_def)
  from assms have t: "(startsWith (trim line) (lit ''|'') \<and> \<not> isSeparatorRow (trim line)) = False"
    by (simp add: isBlockMarker_def)
  show ?thesis
    by (simp add: step_def Let_def c t)
qed

lemma renderLoop_plain_lines:
  assumes "\<forall>l \<in> set ls. \<not> isBlockMarker l" and "\<not> coverH1Done st"
  shows "renderLoop st ls =
           map (\<lambda>l. if trim l = [] then Para blankParagraph else Para (bodyParagraph (trim l))) ls"
  using assms
proof (induction ls)
  case Nil
  then show ?case by (simp add: renderLoop.simps(1))
next
  case (Cons l ls)
  then show ?case
    by (simp add: renderLoop.simps(2) step_unmarked_line)
qed

text \<open>
  C7: when no line of the input matches a block marker, the renderer emits one node per
  line, in order: the spacer paragraph for a blank line and a body paragraph of the
  trimmed text for any other line. So the node count is the line count.
\<close>

theorem plain_text_one_node_per_line:
  assumes "\<forall>l \<in> set (jsSplit content [NEWLINE]). \<not> isBlockMarker l"
  shows "renderMarkdown content =
           map (\<lambda>l. if trim l = [] then Para blankParagraph else Para (bodyParagraph (trim l)))
             (jsSplit content [NEWLINE]) \<and>
         length (renderMarkdown content) = length (jsSplit content [NEWLINE])"
  using renderLoop_plain_lines [OF assms, of initialState]
  by (simp add: renderMarkdown_def initialState_def)

lemma example_lines:
  "jsSplit (lit ''Hello'' @ [NEWLINE, NEWLINE] @ lit '' to you '') [NEWLINE] =
     [lit ''Hello'', [], lit '' to you '']"
  by (simp add: str_eval NEWLINE_def)

lemma example_unmarked:
  "\<not> isBlockMarker (lit ''Hello'')" "\<not> isBlockMarker []" "\<not> isBlockMarker (lit '' to you '')"
  by (simp_all add: isBlockMarker_def str_eval numMatch_def isDigit_def)

theorem plain_text_one_node_per_line_witness:
  "jsSplit (lit ''Hello'' @ [NEWLINE, NEWLINE] @ lit '' to you '') [NEWLINE] =
     [lit ''Hello'', [], lit '' to you ''] \<and>
   \<not> isBlockMarker (lit ''Hello'') \<and> \<not> isBlockMarker [] \<and>
   \<not> isBlockMarker (lit '' to you '') \<and>
   renderMarkdown (lit ''Hello'' @ [NEWLINE, NEWLINE] @ lit '' to you '') =
     [Para (bodyParagraph (lit ''Hello'')), Para blankParagraph,
      Para (bodyParagraph (lit ''to you''))]"
proof -
  have h: "\<forall>l \<in> set (jsSplit (lit ''Hello'' @ [NEWLINE, NEWLINE] @ lit '' to you '') [NEWLINE]).
      \<not> isBlockMarker l"
    unfolding example_lines by (simp add: example_unmarked)
  have t: "trim (lit ''Hello'') = lit ''Hello''" "trim (lit '' to you '') = lit ''to you''"
    "lit ''Hello'' \<noteq> []" "lit ''to you'' \<noteq> []" "trim [] = []"
    by (simp_all add: str_eval)
  have "renderMarkdown (lit ''Hello'' @ [NEWLINE, NEWLINE] @ lit '' to you '') =
     [Para (bodyParagraph (lit ''Hello'')), Para blankParagraph,
      Para (bodyParagraph (lit ''to you''))]"
    using plain_text_one_node_per_line [OF h] unfolding example_lines by (simp add: t)
  then show ?thesis
    using example_lines example_unmarked by simp
qed

section \<open>The cover title\<close>

lemma step_h1_line:
  assumes "startsWith line (lit ''# '')"
  shows "step st line rest =
           (if inCover st \<and> \<not> coverH1Done st \<and> includesStr (trim (drop 2 line)) (lit '' & '')
            then (coverTitleNodes (trim (drop 2 line)), st\<lparr>coverH1Done := True\<rparr>, rest)
            else ([Para (bodyH1 (trim (drop 2 line)))], st, rest))"
proof -
  obtain r where t: "trim line = 35 # r"
    using assms trim_hash_line [of line "[32]"] by (auto simp: lit_Cons lit_Nil)
  have "trim line \<noteq> lit ''[COVER_END]''" "\<not> startsWith (trim line) (lit ''> '')"
    "\<not> startsWith (trim line) (lit ''|'')"
    unfolding t by (simp_all add: startsWith_def lit_Cons lit_Nil)
  with assms show ?thesis
    by (simp add: step_def Let_def)
qed

text \<open>
  C2 fails on a title with two ampersand delimiters: the title is split at every
  delimiter and only the first two pieces are kept, so the second cover line is the
  ampersand and the text between the first and the second delimiter; the text after the
  second delimiter is in neither line.
\<close>

theorem cover_title_drops_text_after_second_ampersand:
  "renderMarkdown (lit ''# A & B & C'') =
     [Para (coverTitleLine1 (Some (lit ''A''))), Para (coverTitleLine2 (Some (lit ''B'')))] \<and>
   children (coverTitleLine2 (Some (lit ''B''))) =
     [Run \<lparr>run_text = Some (lit ''& B''), run_bold = Some True, run_italics = None,
        run_color = DARK_BLUE, run_size = 76, run_font = lit ''Bebas Neue''\<rparr>]"
  by (simp add: renderMarkdown_def renderLoop.simps step_def str_eval NEWLINE_def initialState_def
      Let_def coverTitleNodes_def splitLimit_def jsIndex_def coverTitleLine2_def
      emptyParagraph_def)

lemma isCoverTitle_addSpacer: "\<not> isCoverTitle (addSpacer b a)"
  by (simp add: isCoverTitle_def addSpacer_def emptyParagraph_def)

lemma isCoverTitle_Tbl: "\<not> isCoverTitle (Tbl t)"
  by (simp add: isCoverTitle_def)

lemma no_cover_title_calloutNodes: "filter isCoverTitle (calloutNodes ls) = []"
  by (simp add: calloutNodes_def boxNodes_def Let_def isCoverTitle_addSpacer isCoverTitle_Tbl
      split: option.splits)

lemma no_cover_title_tableNodes: "filter isCoverTitle (tableNodes h ls) = []"
  by (simp add: tableNodes_def Let_def isCoverTitle_addSpacer isCoverTitle_Tbl
      split: option.splits)

lemma one_cover_title_coverTitleNodes: "length (filter isCoverTitle (coverTitleNodes title)) = 1"
  by (simp add: coverTitleNodes_def Let_def isCoverTitle_def coverTitleLine1_def
      coverTitleLine2_def emptyParagraph_def)

lemma isCoverTitle_paragraphs:
  "\<not> isCoverTitle (Para pageBreakParagraph)"
  "\<not> isCoverTitle (Para (bodyH1 t))"
  "\<not> isCoverTitle (Para (h2Paragraph n l))"
  "\<not> isCoverTitle (Para (h3Paragraph l))"
  "\<not> isCoverTitle (Para (bulletParagraph l))"
  "\<not> isCoverTitle (Para (numberedParagraph n l))"
  "\<not> isCoverTitle (Para ruleParagraph)"
  "\<not> isCoverTitle (Para blankParagraph)"
  "\<not> isCoverTitle (Para (subtitleParagraph l))"
  "\<not> isCoverTitle (Para (bodyParagraph l))"
  by (simp_all add: isCoverTitle_def pageBreakParagraph_def bodyH1_def h2Paragraph_def
      h3Paragraph_def headingParagraph_def bulletParagraph_def numberedParagraph_def
      ruleParagraph_def blankParagraph_def subtitleParagraph_def bodyParagraph_def
      emptyParagraph_def)

lemmas no_cover_title = isCoverTitle_paragraphs no_cover_title_calloutNodes
  no_cover_title_tableNodes

text \<open>What one iteration does to the title-emitted flag and to the count of cover titles.\<close>

lemma step_keeps_flag:
  assumes "step st line rest = (out, st', remaining)" and "coverH1Done st"
  shows "coverH1Done st' \<and> filter isCoverTitle out = []"
  using assms
  by (auto simp: step_def Let_def no_cover_title split: if_splits option.splits)

lemma step_cover_title_count:
  assumes "step st line rest = (out, st', remaining)"
  shows "length (filter isCoverTitle out) \<le> 1 \<and>
         (filter isCoverTitle out \<noteq> [] \<longrightarrow> coverH1Done st')"
  using assms
  by (auto simp: step_def Let_def no_cover_title one_cover_title_coverTitleNodes
      split: if_splits option.splits)

lemma no_cover_title_after_flag:
  "coverH1Done st \<Longrightarrow> filter isCoverTitle (renderLoop st ls) = []"
proof (induction st ls rule: renderLoop.induct)
  case (1 st)
  then show ?case by (simp add: renderLoop.simps(1))
next
  case (2 st line rest)
  obtain out st' remaining where s: "step st line rest = (out, st', remaining)"
    by (cases "step st line rest") auto
  have k: "coverH1Done st' \<and> filter isCoverTitle out = []"
    using s "2.prems" by (rule step_keeps_flag)
  then have "filter isCoverTitle (renderLoop st' remaining) = []"
    using "2.IH" [OF s [symmetric] refl] by simp
  with k show ?case
    by (simp add: renderLoop_Cons [OF s])
qed

lemma at_most_one_cover_title:
  "length (filter isCoverTitle (renderLoop st ls)) \<le> 1"
proof (induction st ls rule: renderLoop.induct)
  case (1 st)
  then show ?case by (simp add: renderLoop.simps(1))
next
  case (2 st line rest)
  obtain out st' remaining where s: "step st line rest = (out, st', remaining)"
    by (cases "step st line rest") auto
  have c: "length (filter isCoverTitle out) \<le> 1"
    "filter isCoverTitle out \<noteq> [] \<longrightarrow> coverH1Done st'"
    using step_cover_title_count [OF s] by simp_all
  have IH: "length (filter isCoverTitle (renderLoop st' remaining)) \<le> 1"
    using "2.IH" [OF s [symmetric] refl] by simp
  show ?case
  proof (cases "filter isCoverTitle out = []")
    case True
    with IH show ?thesis
      by (simp add: renderLoop_Cons [OF s])
  next
    case False
    with c(2) have "filter isCoverTitle (renderLoop st' remaining) = []"
      by (simp add: no_cover_title_after_flag)
    with c(1) show ?thesis
      by (simp add: renderLoop_Cons [OF s])
  qed
qed

text \<open>
  C8: the output of the renderer holds at most one cover title, whatever the document.
  Once the title-emitted flag is set, an iteration leaves it set and emits no cover
  title; an H1 line met then, with or without the delimiter and in cover mode or not,
  is rendered as the ordinary heading, and the state is unchanged. The first H1 line
  with the delimiter met in cover mode before that is split, and sets the flag.
\<close>

theorem cover_title_split_at_most_once:
  "length (filter isCoverTitle (renderMarkdown content)) \<le> 1 \<and>
   (coverH1Done st \<longrightarrow>
      coverH1Done (fst (snd (step st line rest))) \<and>
      filter isCoverTitle (fst (step st line rest)) = [] \<and>
      filter isCoverTitle (renderLoop st ls) = []) \<and>
   (coverH1Done st \<and> startsWith line (lit ''# '') \<longrightarrow>
      step st line rest = ([Para (bodyH1 (trim (drop 2 line)))], st, rest) \<and>
      heading (bodyH1 (trim (drop 2 line))) = Some (lit ''Heading1'')) \<and>
   (inCover st \<and> \<not> coverH1Done st \<and> startsWith line (lit ''# '') \<and>
    includesStr (trim (drop 2 line)) (lit '' & '') \<longrightarrow>
      step st line rest = (coverTitleNodes (trim (drop 2 line)), st\<lparr>coverH1Done := True\<rparr>, rest))"
proof -
  obtain out st' remaining where s: "step st line rest = (out, st', remaining)"
    by (cases "step st line rest") auto
  have "coverH1Done st \<longrightarrow> coverH1Done (fst (snd (step st line rest))) \<and>
      filter isCoverTitle (fst (step st line rest)) = []"
    using step_keeps_flag [OF s] by (simp add: s)
  moreover have "length (filter isCoverTitle (renderMarkdown content)) \<le> 1"
    unfolding renderMarkdown_def by (rule at_most_one_cover_title)
  moreover have "heading (bodyH1 (trim (drop 2 line))) = Some (lit ''Heading1'')"
    by (simp add: bodyH1_def headingParagraph_def emptyParagraph_def)
  ultimately show ?thesis
    by (simp add: no_cover_title_after_flag step_h1_line)
qed

lemma example_two_titles:
  "jsSplit (lit ''# A & B'' @ [NEWLINE] @ lit ''# C & D'') [NEWLINE] = [lit ''# A & B'', lit ''# C & D'']"
  by (simp add: str_eval NEWLINE_def)

theorem cover_title_split_at_most_once_witness:
  "renderMarkdown (lit ''# A & B'' @ [NEWLINE] @ lit ''# C & D'') =
     [Para (coverTitleLine1 (Some (lit ''A''))), Para (coverTitleLine2 (Some (lit ''B''))),
      Para (bodyH1 (lit ''C & D''))] \<and>
   length (filter isCoverTitle (renderMarkdown (lit ''# A & B'' @ [NEWLINE] @ lit ''# C & D''))) \<le> 1 \<and>
   inCover initialState \<and> \<not> coverH1Done initialState \<and>
   startsWith (lit ''# A & B'') (lit ''# '') \<and>
   includesStr (trim (drop 2 (lit ''# A & B''))) (lit '' & '') \<and>
   step initialState (lit ''# A & B'') [lit ''# C & D''] =
     (coverTitleNodes (lit ''A & B''), initialState\<lparr>coverH1Done := True\<rparr>, [lit ''# C & D'']) \<and>
   coverH1Done (initialState\<lparr>coverH1Done := True\<rparr>) \<and>
   startsWith (lit ''# C & D'') (lit ''# '') \<and>
   step (initialState\<lparr>coverH1Done := True\<rparr>) (lit ''# C & D'') [] =
     ([Para (bodyH1 (lit ''C & D''))], initialState\<lparr>coverH1Done := True\<rparr>, [])"
proof -
  have h: "inCover initialState" "\<not> coverH1Done initialState"
    "startsWith (lit ''# A & B'') (lit ''# '')"
    "includesStr (trim (drop 2 (lit ''# A & B''))) (lit '' & '')"
    "coverH1Done (initialState\<lparr>coverH1Done := True\<rparr>)"
    "startsWith (lit ''# C & D'') (lit ''# '')"
    by (simp_all add: initialState_def str_eval)
  have t: "trim (drop 2 (lit ''# A & B'')) = lit ''A & B''"
    "trim (drop 2 (lit ''# C & D'')) = lit ''C & D''"
    by (simp_all add: str_eval)
  have s1: "step initialState (lit ''# A & B'') [lit ''# C & D''] =
      (coverTitleNodes (lit ''A & B''), initialState\<lparr>coverH1Done := True\<rparr>, [lit ''# C & D''])"
    using h cover_title_split_at_most_once
      [of "lit ''# A & B'' @ [NEWLINE] @ lit ''# C & D''" initialState "lit ''# A & B''"
        "[lit ''# C & D'']" "[]"]
    by (simp add: t)
  have s2: "step (initialState\<lparr>coverH1Done := True\<rparr>) (lit ''# C & D'') [] =
      ([Para (bodyH1 (lit ''C & D''))], initialState\<lparr>coverH1Done := True\<rparr>, [])"
    using h cover_title_split_at_most_once
      [of "lit ''# A & B'' @ [NEWLINE] @ lit ''# C & D''" "initialState\<lparr>coverH1Done := True\<rparr>"
        "lit ''# C & D''" "[]" "[]"]
    by (simp add: t)
  have c: "coverTitleNodes (lit ''A & B'') =
      [Para (coverTitleLine1 (Some (lit ''A''))), Para (coverTitleLine2 (Some (lit ''B'')))]"
    by (simp add: coverTitleNodes_def splitLimit_def jsIndex_def str_eval)
  have r: "renderMarkdown (lit ''# A & B'' @ [NEWLINE] @ lit ''# C & D'') =
     [Para (coverTitleLine1 (Some (lit ''A''))), Para (coverTitleLine2 (Some (lit ''B''))),
      Para (bodyH1 (lit ''C & D''))]"
    unfolding renderMarkdown_def example_two_titles
    by (simp add: renderLoop_Cons [OF s1] renderLoop_Cons [OF s2] renderLoop.simps(1) c)
  show ?thesis
    using h s1 s2 r
      cover_title_split_at_most_once
        [of "lit ''# A & B'' @ [NEWLINE] @ lit ''# C & D''" initialState "lit ''# A & B''"
          "[lit ''# C & D'']" "[]"]
    by simp
qed

end
